theory Spec2Isabelle
  imports Complex_Main
begin

section \<open>JavaScript strings\<close>

text \<open>
  A JavaScript string is a sequence of UTF-16 code units.  A code unit is modelled by its
  number, so that null bytes and unpaired surrogates (\<open>0xD800\<close> .. \<open>0xDFFF\<close>) are
  ordinary elements.  \<open>js\<close> embeds an ASCII literal.
\<close>

type_synonym jsstring = "nat list"

definition js :: "string \<Rightarrow> jsstring" where
  "js s = map of_char s"

text \<open>
  \<open>String.prototype.trim\<close> removes WhiteSpace and LineTerminator code points from both
  ends; the regular-expression class \<open>\s\<close> is the same set: TAB, LF, VT, FF, CR, SP, NBSP,
  U+1680, U+2000..U+200A, U+2028, U+2029, U+202F, U+205F, U+3000, U+FEFF.
\<close>

definition isWhiteSpace :: "nat \<Rightarrow> bool" where
  "isWhiteSpace c \<longleftrightarrow>
     c = 9 \<or> c = 10 \<or> c = 11 \<or> c = 12 \<or> c = 13 \<or> c = 32 \<or> c = 160 \<or> c = 5760 \<or>
     (8192 \<le> c \<and> c \<le> 8202) \<or> c = 8232 \<or> c = 8233 \<or> c = 8239 \<or> c = 8287 \<or>
     c = 12288 \<or> c = 65279"

definition trim :: "jsstring \<Rightarrow> jsstring" where
  "trim s = rev (dropWhile isWhiteSpace (rev (dropWhile isWhiteSpace s)))"

text \<open>The character classes of the detection patterns.\<close>

definition isDigit :: "nat \<Rightarrow> bool" where
  "isDigit c \<longleftrightarrow> 48 \<le> c \<and> c \<le> 57"

definition isAlnum :: "nat \<Rightarrow> bool" where
  "isAlnum c \<longleftrightarrow> (65 \<le> c \<and> c \<le> 90) \<or> (97 \<le> c \<and> c \<le> 122) \<or> isDigit c"

text \<open>\<open>[A-Za-z0-9_-]\<close>\<close>

definition isBase64Url :: "nat \<Rightarrow> bool" where
  "isBase64Url c \<longleftrightarrow> isAlnum c \<or> c = 95 \<or> c = 45"

text \<open>\<open>[A-Za-z0-9+/=_-]\<close>\<close>

definition isBase64Any :: "nat \<Rightarrow> bool" where
  "isBase64Any c \<longleftrightarrow> isAlnum c \<or> c = 43 \<or> c = 47 \<or> c = 61 \<or> c = 95 \<or> c = 45"

text \<open>\<open>[gimsuy]\<close>\<close>

definition isFlag :: "nat \<Rightarrow> bool" where
  "isFlag c \<longleftrightarrow> c = 103 \<or> c = 105 \<or> c = 109 \<or> c = 115 \<or> c = 117 \<or> c = 121"

text \<open>The regular-expression dot matches every code unit but the line terminators.\<close>

definition isLineTerminator :: "nat \<Rightarrow> bool" where
  "isLineTerminator c \<longleftrightarrow> c = 10 \<or> c = 13 \<or> c = 8232 \<or> c = 8233"

text \<open>\<open>s.split(d)\<close> for a one-character separator: never empty, \<open>''''.split(d)\<close> is \<open>['''']\<close>.\<close>

fun split :: "nat \<Rightarrow> jsstring \<Rightarrow> jsstring list" where
  "split d [] = [[]]"
| "split d (c # cs) =
     (if c = d then [] # split d cs
      else (case split d cs of p # ps \<Rightarrow> (c # p) # ps | [] \<Rightarrow> [[c]]))"

text \<open>\<open>s.replace(/-/g, '+').replace(/_/g, '/')\<close>\<close>

definition normalizeBase64Url :: "jsstring \<Rightarrow> jsstring" where
  "normalizeBase64Url s =
     map (\<lambda>c. if c = 95 then 47 else c) (map (\<lambda>c. if c = 45 then 43 else c) s)"

section \<open>Host primitives\<close>

text \<open>
  The values a \<open>throw\<close> can carry: the exceptions of the host primitives, and whatever a
  caller-supplied callback throws (identified by a number).
\<close>

datatype exn = InvalidCharacterError | SyntaxError | TypeError | Thrown nat

subsection \<open>\<open>atob\<close>\<close>

text \<open>
  The forgiving-base64 decode of the HTML standard: ASCII whitespace is removed; when the
  length is a multiple of four, one or two trailing \<open>=\<close> are removed; a length of
  \<open>1 mod 4\<close> or a character outside \<open>[A-Za-z0-9+/]\<close> throws InvalidCharacterError;
  the leftover bits of a final group of two or three characters are dropped.
\<close>

definition isAsciiWhitespace :: "nat \<Rightarrow> bool" where
  "isAsciiWhitespace c \<longleftrightarrow> c = 9 \<or> c = 10 \<or> c = 12 \<or> c = 13 \<or> c = 32"

definition base64Value :: "nat \<Rightarrow> nat option" where
  "base64Value c =
     (if 65 \<le> c \<and> c \<le> 90 then Some (c - 65)
      else if 97 \<le> c \<and> c \<le> 122 then Some (c - 71)
      else if 48 \<le> c \<and> c \<le> 57 then Some (c + 4)
      else if c = 43 then Some 62
      else if c = 47 then Some 63
      else None)"

fun base64Values :: "jsstring \<Rightarrow> nat list option" where
  "base64Values [] = Some []"
| "base64Values (c # cs) =
     (case base64Value c of None \<Rightarrow> None
      | Some v \<Rightarrow> (case base64Values cs of None \<Rightarrow> None | Some vs \<Rightarrow> Some (v # vs)))"

fun decodeSextets :: "nat list \<Rightarrow> jsstring" where
  "decodeSextets (a # b # c # d # r) =
     (a * 4 + b div 16) # ((b mod 16) * 16 + c div 4) # ((c mod 4) * 64 + d) # decodeSextets r"
| "decodeSextets [a, b, c] = [a * 4 + b div 16, (b mod 16) * 16 + c div 4]"
| "decodeSextets [a, b] = [a * 4 + b div 16]"
| "decodeSextets _ = []"

definition stripPadding :: "jsstring \<Rightarrow> jsstring" where
  "stripPadding d =
     (if length d mod 4 = 0 then
        (case rev d of
           x # y # r \<Rightarrow> if x = 61 \<and> y = 61 then rev r else if x = 61 then rev (y # r) else d
         | _ \<Rightarrow> d)
      else d)"

definition atob :: "jsstring \<Rightarrow> exn + jsstring" where
  "atob data =
     (let d = stripPadding (filter (\<lambda>c. \<not> isAsciiWhitespace c) data) in
      if length d mod 4 = 1 then Inl InvalidCharacterError
      else (case base64Values d of
              None \<Rightarrow> Inl InvalidCharacterError
            | Some vs \<Rightarrow> Inr (decodeSextets vs)))"

subsection \<open>\<open>parseInt(s, 10)\<close>\<close>

text \<open>
  Leading white space is skipped, a sign is read, then the longest prefix of decimal digits;
  \<open>None\<close> is NaN.  The value is the exact integer: the callers below compare it only when
  the string has at most 13 characters, far below \<open>2^53\<close>, where a double is exact.
\<close>

definition digitsValue :: "jsstring \<Rightarrow> int" where
  "digitsValue ds = foldl (\<lambda>a c. 10 * a + (int c - 48)) 0 ds"

definition parseInt :: "jsstring \<Rightarrow> int option" where
  "parseInt s =
     (let s1 = dropWhile isWhiteSpace s;
          neg = (case s1 of c # _ \<Rightarrow> c = 45 | [] \<Rightarrow> False);
          s2 = (case s1 of c # r \<Rightarrow> if c = 45 \<or> c = 43 then r else s1 | [] \<Rightarrow> s1);
          ds = takeWhile isDigit s2
      in if ds = [] then None
         else Some (if neg then - digitsValue ds else digitsValue ds))"

subsection \<open>\<open>JSON.parse\<close>\<close>

text \<open>
  The values \<open>JSON.parse\<close> produces.  A number keeps its decimal mantissa and exponent
  (\<open>JNumber m e\<close> is \<open>m * 10^e\<close>); an object keeps its members in source order,
  duplicates included (the last one is the property's value).
\<close>

datatype json =
    JNull
  | JBool bool
  | JNumber int int
  | JString jsstring
  | JArray "json list"
  | JObject "(jsstring \<times> json) list"

datatype tok =
    TLBrace | TRBrace | TLBracket | TRBracket | TColon | TComma
  | TString jsstring | TNumber int int | TTrue | TFalse | TNull

definition hexValue :: "nat \<Rightarrow> nat option" where
  "hexValue c =
     (if 48 \<le> c \<and> c \<le> 57 then Some (c - 48)
      else if 65 \<le> c \<and> c \<le> 70 then Some (c - 55)
      else if 97 \<le> c \<and> c \<le> 102 then Some (c - 87)
      else None)"

definition hex4 :: "nat \<Rightarrow> nat \<Rightarrow> nat \<Rightarrow> nat \<Rightarrow> nat option" where
  "hex4 h1 h2 h3 h4 =
     (case hexValue h1 of None \<Rightarrow> None | Some a \<Rightarrow>
      (case hexValue h2 of None \<Rightarrow> None | Some b \<Rightarrow>
       (case hexValue h3 of None \<Rightarrow> None | Some c \<Rightarrow>
        (case hexValue h4 of None \<Rightarrow> None | Some d \<Rightarrow>
           Some (((a * 16 + b) * 16 + c) * 16 + d)))))"

text \<open>The single-character escapes \<open>\" \\ \/ \b \f \n \r \t\<close>.\<close>

definition unescape :: "nat \<Rightarrow> nat option" where
  "unescape e =
     (if e = 34 then Some 34 else if e = 92 then Some 92 else if e = 47 then Some 47
      else if e = 98 then Some 8 else if e = 102 then Some 12 else if e = 110 then Some 10
      else if e = 114 then Some 13 else if e = 116 then Some 9 else None)"

text \<open>
  The rest of a string literal after its opening quote: the decoded contents (accumulated
  in reverse) and the input after the closing quote.  Control characters below U+0020
  must be escaped.
\<close>

fun lexString :: "jsstring \<Rightarrow> jsstring \<Rightarrow> (jsstring \<times> jsstring) option"
  and lexEscape :: "jsstring \<Rightarrow> jsstring \<Rightarrow> (jsstring \<times> jsstring) option"
  and lexHex :: "jsstring \<Rightarrow> jsstring \<Rightarrow> (jsstring \<times> jsstring) option" where
  "lexString acc [] = None"
| "lexString acc (c # cs) =
     (if c = 34 then Some (rev acc, cs)
      else if c = 92 then lexEscape acc cs
      else if c < 32 then None
      else lexString (c # acc) cs)"
| "lexEscape acc [] = None"
| "lexEscape acc (e # r) =
     (if e = 117 then lexHex acc r
      else (case unescape e of None \<Rightarrow> None | Some x \<Rightarrow> lexString (x # acc) r))"
| "lexHex acc (h1 # h2 # h3 # h4 # r) =
     (case hex4 h1 h2 h3 h4 of None \<Rightarrow> None | Some u \<Rightarrow> lexString (u # acc) r)"
| "lexHex acc _ = None"

text \<open>
  A number literal \<open>-? (0 | [1-9][0-9]*) (. [0-9]+)? ([eE] [+-]? [0-9]+)?\<close> at the head
  of the input: its mantissa and exponent, and the input after it.
\<close>

definition lexInt :: "jsstring \<Rightarrow> (jsstring \<times> jsstring) option" where
  "lexInt s =
     (case s of
        [] \<Rightarrow> None
      | c # r \<Rightarrow>
          if c = 48 then Some ([c], r)
          else if isDigit c then Some (takeWhile isDigit s, dropWhile isDigit s)
          else None)"

definition lexFrac :: "jsstring \<Rightarrow> (jsstring \<times> jsstring) option" where
  "lexFrac s =
     (case s of
        [] \<Rightarrow> Some ([], s)
      | c # r \<Rightarrow>
          if c = 46 then
            (if takeWhile isDigit r = [] then None
             else Some (takeWhile isDigit r, dropWhile isDigit r))
          else Some ([], s))"

definition lexDigitsSigned :: "jsstring \<Rightarrow> (int \<times> jsstring) option" where
  "lexDigitsSigned s =
     (let neg = (case s of c # _ \<Rightarrow> c = 45 | [] \<Rightarrow> False);
          s1 = (case s of c # r \<Rightarrow> if c = 45 \<or> c = 43 then r else s | [] \<Rightarrow> s);
          ds = takeWhile isDigit s1
      in if ds = [] then None
         else Some ((if neg then - digitsValue ds else digitsValue ds), dropWhile isDigit s1))"

definition lexExp :: "jsstring \<Rightarrow> (int \<times> jsstring) option" where
  "lexExp s =
     (case s of
        [] \<Rightarrow> Some (0, s)
      | c # r \<Rightarrow> if c = 101 \<or> c = 69 then lexDigitsSigned r else Some (0, s))"

definition lexNumber :: "jsstring \<Rightarrow> ((int \<times> int) \<times> jsstring) option" where
  "lexNumber s =
     (let neg = (case s of c # _ \<Rightarrow> c = 45 | [] \<Rightarrow> False) in
      case lexInt (if neg then tl s else s) of
        None \<Rightarrow> None
      | Some (ip, s2) \<Rightarrow>
         (case lexFrac s2 of
            None \<Rightarrow> None
          | Some (fp, s3) \<Rightarrow>
             (case lexExp s3 of
                None \<Rightarrow> None
              | Some (e, s4) \<Rightarrow>
                  Some (((if neg then - digitsValue (ip @ fp) else digitsValue (ip @ fp)),
                         e - int (length fp)), s4))))"

definition isJsonWhitespace :: "nat \<Rightarrow> bool" where
  "isJsonWhitespace c \<longleftrightarrow> c = 32 \<or> c = 9 \<or> c = 10 \<or> c = 13"

text \<open>\<open>dropPrefix p s\<close> is the rest of \<open>s\<close> after its prefix \<open>p\<close>.\<close>

fun dropPrefix :: "jsstring \<Rightarrow> jsstring \<Rightarrow> jsstring option" where
  "dropPrefix [] s = Some s"
| "dropPrefix (p # ps) [] = None"
| "dropPrefix (p # ps) (c # cs) = (if p = c then dropPrefix ps cs else None)"

text \<open>The token at the head of the input (which does not start with white space).\<close>

definition nextToken :: "jsstring \<Rightarrow> (tok \<times> jsstring) option" where
  "nextToken s =
     (case s of
        [] \<Rightarrow> None
      | c # cs \<Rightarrow>
          if c = 123 then Some (TLBrace, cs)
          else if c = 125 then Some (TRBrace, cs)
          else if c = 91 then Some (TLBracket, cs)
          else if c = 93 then Some (TRBracket, cs)
          else if c = 58 then Some (TColon, cs)
          else if c = 44 then Some (TComma, cs)
          else if c = 34 then map_option (\<lambda>(x, r). (TString x, r)) (lexString [] cs)
          else if c = 45 \<or> isDigit c then
            map_option (\<lambda>(n, r). (TNumber (fst n) (snd n), r)) (lexNumber s)
          else if c = 116 then map_option (Pair TTrue) (dropPrefix (js ''rue'') cs)
          else if c = 102 then map_option (Pair TFalse) (dropPrefix (js ''alse'') cs)
          else if c = 110 then map_option (Pair TNull) (dropPrefix (js ''ull'') cs)
          else None)"

lemma lexString_length:
  "lexString acc s = Some (x, r) \<Longrightarrow> length r < length s"
  "lexEscape acc s = Some (x, r) \<Longrightarrow> length r < length s"
  "lexHex acc s = Some (x, r) \<Longrightarrow> length r < length s"
proof (induction acc s and acc s and acc s arbitrary: x r and x r and x r
      rule: lexString_lexEscape_lexHex.induct)
  case (2 acc c cs)
  show ?case
  proof (cases "c = 34")
    case True with 2(3) show ?thesis by simp
  next
    case n34: False
    show ?thesis
    proof (cases "c = 92")
      case True
      with n34 2(3) have "lexEscape acc cs = Some (x, r)" by simp
      from 2(1)[OF n34 True this] show ?thesis by simp
    next
      case False
      with n34 2(3) have lt: "\<not> c < 32" and "lexString (c # acc) cs = Some (x, r)"
        by (simp_all split: if_splits)
      from 2(2)[OF n34 False lt this(2)] show ?thesis by simp
    qed
  qed
next
  case (4 acc e r')
  show ?case
  proof (cases "e = 117")
    case True
    with 4(3) have "lexHex acc r' = Some (x, r)" by simp
    from 4(1)[OF True this] show ?thesis by simp
  next
    case False
    with 4(3) obtain u where u: "unescape e = Some u" and "lexString (u # acc) r' = Some (x, r)"
      by (simp split: option.splits)
    from 4(2)[OF False u this(2)] show ?thesis by simp
  qed
next
  case (5 acc h1 h2 h3 h4 r')
  from 5(2) obtain u where u: "hex4 h1 h2 h3 h4 = Some u" and "lexString (u # acc) r' = Some (x, r)"
    by (simp split: option.splits)
  from 5(1)[OF u this(2)] show ?case by simp
qed simp_all

lemma dropPrefix_length: "dropPrefix p s = Some r \<Longrightarrow> length r \<le> length s"
  by (induction p s rule: dropPrefix.induct) (simp_all split: if_splits)



lemma lexInt_length: "lexInt s = Some (x, r) \<Longrightarrow> length r < length s"
  by (cases s) (auto simp: lexInt_def length_dropWhile_le less_Suc_eq_le split: if_splits)

lemma lexFrac_length: "lexFrac s = Some (x, r) \<Longrightarrow> length r \<le> length s"
  by (cases s) (auto simp: lexFrac_def length_dropWhile_le le_SucI split: if_splits)

lemma lexDigitsSigned_length: "lexDigitsSigned s = Some (x, r) \<Longrightarrow> length r \<le> length s"
  by (cases s) (auto simp: lexDigitsSigned_def Let_def length_dropWhile_le le_SucI split: if_splits)

lemma lexExp_length: "lexExp s = Some (x, r) \<Longrightarrow> length r \<le> length s"
  by (cases s) (auto simp: lexExp_def le_SucI dest: lexDigitsSigned_length split: if_splits)

lemma lexNumber_length:
  assumes "lexNumber s = Some (n, r)"
  shows "length r < length s"
proof -
  define s1 where "s1 = (if (case s of c # _ \<Rightarrow> c = 45 | [] \<Rightarrow> False) then tl s else s)"
  from assms obtain ip s2 fp s3 e where
    1: "lexInt s1 = Some (ip, s2)" and 2: "lexFrac s2 = Some (fp, s3)" and 3: "lexExp s3 = Some (e, r)"
    unfolding lexNumber_def Let_def s1_def by (auto split: option.splits)
  have "length s1 \<le> length s" unfolding s1_def by simp
  with lexInt_length[OF 1] lexFrac_length[OF 2] lexExp_length[OF 3] show ?thesis by linarith
qed


lemma nextToken_length:
  assumes a: "nextToken s = Some (t, r)"
  shows "length r < length s"
proof (cases s)
  case Nil
  with a show ?thesis by (simp add: nextToken_def)
next
  case (Cons c cs)
  have 1: "\<And>x. lexString [] cs = Some (x, r) \<Longrightarrow> length r < length s"
    using lexString_length(1)[of "[]" cs _ r] Cons by simp
  have 2: "\<And>n. lexNumber s = Some (n, r) \<Longrightarrow> length r < length s"
    using lexNumber_length by blast
  have 3: "\<And>p. dropPrefix p cs = Some r \<Longrightarrow> length r < length s"
    using dropPrefix_length[of _ cs r] Cons by fastforce
  consider "c \<in> {123, 125, 91, 93, 58, 44}" | "c = 34" | "c = 45 \<or> isDigit c"
    | "c = 116" | "c = 102" | "c = 110"
    | "c \<notin> {123, 125, 91, 93, 58, 44, 34, 45, 116, 102, 110}" "\<not> isDigit c"
    by blast
  then show ?thesis
  proof cases
    case 1
    with a Cons have "r = cs" unfolding nextToken_def by (auto split: if_splits)
    with Cons show ?thesis by simp
  next
    case 2
    with a Cons obtain x where "lexString [] cs = Some (x, r)"
      unfolding nextToken_def by auto
    with 1 show ?thesis by blast
  next
    case 3
    then have "c \<notin> {123, 125, 91, 93, 58, 44, 34}" by (auto simp: isDigit_def)
    with 3 a Cons obtain n where "lexNumber s = Some (n, r)"
      unfolding nextToken_def by auto
    with 2 show ?thesis by blast
  next
    case 4
    then have "\<not> isDigit c" by (simp add: isDigit_def)
    with 4 a Cons have "dropPrefix (js ''rue'') cs = Some r"
      unfolding nextToken_def by auto
    with 3 show ?thesis by blast
  next
    case 5
    then have "\<not> isDigit c" by (simp add: isDigit_def)
    with 5 a Cons have "dropPrefix (js ''alse'') cs = Some r"
      unfolding nextToken_def by auto
    with 3 show ?thesis by blast
  next
    case 6
    then have "\<not> isDigit c" by (simp add: isDigit_def)
    with 6 a Cons have "dropPrefix (js ''ull'') cs = Some r"
      unfolding nextToken_def by auto
    with 3 show ?thesis by blast
  next
    case 7
    with a Cons show ?thesis unfolding nextToken_def by simp
  qed
qed

function tokenize :: "jsstring \<Rightarrow> tok list option" where
  "tokenize [] = Some []"
| "tokenize (c # cs) =
     (if isJsonWhitespace c then tokenize cs
      else (case nextToken (c # cs) of
              None \<Rightarrow> None
            | Some (t, r) \<Rightarrow> map_option ((#) t) (tokenize r)))"
  by pat_completeness auto
termination
proof (relation "measure length")
  fix c cs x2 x y
  assume "nextToken (c # cs) = Some x2" "(x, y) = x2"
  then show "(y, c # cs) \<in> measure length"
    using nextToken_length[of "c # cs" x y] by simp
qed simp_all


text \<open>
  The grammar is recognised by a pushdown automaton over the tokens: the stack holds the
  arrays and objects that are still open.
\<close>

datatype frame = InArray "json list" | InObject "(jsstring \<times> json) list" jsstring

datatype pstate =
    NeedValue "frame list"
  | ArrayOpen "frame list"
  | ObjectOpen "frame list"
  | NeedKey "(jsstring \<times> json) list" "frame list"
  | NeedColon "(jsstring \<times> json) list" jsstring "frame list"
  | HaveValue json "frame list"

fun scalar :: "tok \<Rightarrow> json option" where
  "scalar (TString s) = Some (JString s)"
| "scalar (TNumber m e) = Some (JNumber m e)"
| "scalar TTrue = Some (JBool True)"
| "scalar TFalse = Some (JBool False)"
| "scalar TNull = Some JNull"
| "scalar _ = None"

fun startValue :: "frame list \<Rightarrow> tok \<Rightarrow> pstate option" where
  "startValue fs TLBracket = Some (ArrayOpen fs)"
| "startValue fs TLBrace = Some (ObjectOpen fs)"
| "startValue fs t = map_option (\<lambda>v. HaveValue v fs) (scalar t)"

fun pstep :: "pstate \<Rightarrow> tok \<Rightarrow> pstate option" where
  "pstep (NeedValue fs) t = startValue fs t"
| "pstep (ArrayOpen fs) t =
     (if t = TRBracket then Some (HaveValue (JArray []) fs) else startValue (InArray [] # fs) t)"
| "pstep (ObjectOpen fs) t =
     (case t of TRBrace \<Rightarrow> Some (HaveValue (JObject []) fs)
      | TString k \<Rightarrow> Some (NeedColon [] k fs)
      | _ \<Rightarrow> None)"
| "pstep (NeedKey kvs fs) t = (case t of TString k \<Rightarrow> Some (NeedColon kvs k fs) | _ \<Rightarrow> None)"
| "pstep (NeedColon kvs k fs) t = (if t = TColon then Some (NeedValue (InObject kvs k # fs)) else None)"
| "pstep (HaveValue v []) t = None"
| "pstep (HaveValue v (InArray xs # fs)) t =
     (case t of TComma \<Rightarrow> Some (NeedValue (InArray (xs @ [v]) # fs))
      | TRBracket \<Rightarrow> Some (HaveValue (JArray (xs @ [v])) fs)
      | _ \<Rightarrow> None)"
| "pstep (HaveValue v (InObject kvs k # fs)) t =
     (case t of TComma \<Rightarrow> Some (NeedKey (kvs @ [(k, v)]) fs)
      | TRBrace \<Rightarrow> Some (HaveValue (JObject (kvs @ [(k, v)])) fs)
      | _ \<Rightarrow> None)"

fun prun :: "pstate \<Rightarrow> tok list \<Rightarrow> json option" where
  "prun (HaveValue v []) [] = Some v"
| "prun st [] = None"
| "prun st (t # ts) = (case pstep st t of None \<Rightarrow> None | Some st' \<Rightarrow> prun st' ts)"

definition JSON_parse :: "jsstring \<Rightarrow> exn + json" where
  "JSON_parse text =
     (case tokenize text of
        None \<Rightarrow> Inl SyntaxError
      | Some ts \<Rightarrow> (case prun (NeedValue []) ts of None \<Rightarrow> Inl SyntaxError | Some v \<Rightarrow> Inr v))"

subsection \<open>Values and property access\<close>

text \<open>
  What a property read can give: a parsed value, \<open>undefined\<close>, or a built-in function
  object found on a prototype.
\<close>

datatype jsvalue = Undefined | Value json | Function

text \<open>
  \<open>v.k\<close> on a value returned by \<open>JSON.parse\<close>, for the five names the detector reads
  (\<open>typ\<close>, \<open>alg\<close>, \<open>iat\<close>, \<open>exp\<close>, \<open>sub\<close>).  Reading a property of \<open>null\<close> throws a
  TypeError.  An object gives its own member (the last of duplicates) or \<open>undefined\<close>;
  numbers, booleans and arrays have no property of these names.  A string primitive
  inherits the method \<open>String.prototype.sub\<close> (ECMA-262, Annex B), so its \<open>sub\<close> is a
  function.
\<close>

fun getProperty :: "json \<Rightarrow> jsstring \<Rightarrow> exn + jsvalue" where
  "getProperty JNull k = Inl TypeError"
| "getProperty (JObject kvs) k =
     Inr (case map_of (rev kvs) k of Some v \<Rightarrow> Value v | None \<Rightarrow> Undefined)"
| "getProperty (JString s) k = Inr (if k = js ''sub'' then Function else Undefined)"
| "getProperty _ k = Inr Undefined"

text \<open>
  ToBoolean.  A number literal \<open>m * 10^e\<close> is falsy when the double nearest to it is zero,
  that is when \<open>|m * 10^e| \<le> 2^-1075\<close> (half the least subnormal; the tie rounds to
  even, which is zero).
\<close>

definition roundsToZero :: "int \<Rightarrow> int \<Rightarrow> bool" where
  "roundsToZero m e \<longleftrightarrow>
     m = 0 \<or> (e < 0 \<and> \<bar>m\<bar> * 2 ^ 1075 \<le> 10 ^ nat (- e))"

fun truthy :: "jsvalue \<Rightarrow> bool" where
  "truthy Undefined = False"
| "truthy Function = True"
| "truthy (Value JNull) = False"
| "truthy (Value (JBool b)) = b"
| "truthy (Value (JNumber m e)) = (\<not> roundsToZero m e)"
| "truthy (Value (JString s)) = (s \<noteq> [])"
| "truthy (Value (JArray xs)) = True"
| "truthy (Value (JObject kvs)) = True"

subsection \<open>The regular-expression engine and the clock\<close>

text \<open>
  What the detector takes from its host besides the primitives above: the verdict of the
  regular-expression compiler on a pattern and flags, and the reading of \<open>Date.now()\<close>
  in milliseconds.
\<close>

record host =
  patternCompiles :: "jsstring \<Rightarrow> jsstring \<Rightarrow> bool"
  now :: int

text \<open>
  \<open>new RegExp(p, f)\<close>: a repeated flag is a SyntaxError; a pattern of ASCII letters and
  digits only has no syntax character and always compiles; for every other pattern the
  engine of the host decides.  The result object is not used.
\<close>

definition newRegExp :: "host \<Rightarrow> jsstring \<Rightarrow> jsstring \<Rightarrow> exn + unit" where
  "newRegExp h p f =
     (if \<not> distinct f then Inl SyntaxError
      else if list_all isAlnum p then Inr ()
      else if patternCompiles h p f then Inr ()
      else Inl SyntaxError)"

section \<open>Format detection patterns\<close>

text \<open>\<open>try { body } catch { handler }\<close>\<close>

definition try_catch :: "exn + 'a \<Rightarrow> (exn \<Rightarrow> exn + 'a) \<Rightarrow> exn + 'a" where
  "try_catch body handler = (case body of Inl e \<Rightarrow> handler e | Inr v \<Rightarrow> Inr v)"

subsection \<open>jwt\<close>

text \<open>\<open>/^[A-Za-z0-9_-]+\.[A-Za-z0-9_-]+\.[A-Za-z0-9_-]*$/\<close>\<close>

definition jwt_pattern :: "jsstring \<Rightarrow> bool" where
  "jwt_pattern s =
     (takeWhile isBase64Url s \<noteq> [] \<and>
      (case dropWhile isBase64Url s of
         [] \<Rightarrow> False
       | d1 # r1 \<Rightarrow>
           d1 = 46 \<and> takeWhile isBase64Url r1 \<noteq> [] \<and>
           (case dropWhile isBase64Url r1 of
              [] \<Rightarrow> False
            | d2 # r2 \<Rightarrow> d2 = 46 \<and> list_all isBase64Url r2)))"

text \<open>
  \<open>header.typ === 'JWT' || header.alg || payload.iat || payload.exp || payload.sub\<close>,
  read left to right, stopping at the first truthy operand; the result is used as a
  condition, so only its truth value is kept.
\<close>

definition jwt_claims :: "json \<Rightarrow> json \<Rightarrow> exn + bool" where
  "jwt_claims header payload =
     (case getProperty header (js ''typ'') of Inl e \<Rightarrow> Inl e | Inr typ \<Rightarrow>
      if typ = Value (JString (js ''JWT'')) then Inr True else
      (case getProperty header (js ''alg'') of Inl e \<Rightarrow> Inl e | Inr alg \<Rightarrow>
       if truthy alg then Inr True else
       (case getProperty payload (js ''iat'') of Inl e \<Rightarrow> Inl e | Inr iat \<Rightarrow>
        if truthy iat then Inr True else
        (case getProperty payload (js ''exp'') of Inl e \<Rightarrow> Inl e | Inr exp' \<Rightarrow>
         if truthy exp' then Inr True else
         (case getProperty payload (js ''sub'') of Inl e \<Rightarrow> Inl e | Inr sub \<Rightarrow>
            Inr (truthy sub))))))"

definition jwt_decode :: "jsstring \<Rightarrow> exn + json" where
  "jwt_decode part =
     (case atob (normalizeBase64Url part) of Inl e \<Rightarrow> Inl e | Inr text \<Rightarrow> JSON_parse text)"

definition jwt_validate :: "jsstring \<Rightarrow> exn + bool" where
  "jwt_validate content =
     (let parts = split 46 (trim content) in
      if length parts \<noteq> 3 then Inr False
      else try_catch
             (case jwt_decode (parts ! 0) of Inl e \<Rightarrow> Inl e | Inr header \<Rightarrow>
              (case jwt_decode (parts ! 1) of Inl e \<Rightarrow> Inl e | Inr payload \<Rightarrow>
                 jwt_claims header payload))
             (\<lambda>_. Inr False))"

subsection \<open>json\<close>

text \<open>\<open>/^[\s]*[\[{]/\<close>\<close>

definition json_pattern :: "jsstring \<Rightarrow> bool" where
  "json_pattern s =
     (case dropWhile isWhiteSpace s of [] \<Rightarrow> False | c # _ \<Rightarrow> c = 91 \<or> c = 123)"

definition json_validate :: "jsstring \<Rightarrow> exn + bool" where
  "json_validate content =
     try_catch
       (case JSON_parse (trim content) of Inl e \<Rightarrow> Inl e | Inr _ \<Rightarrow> Inr True)
       (\<lambda>_. Inr False)"

subsection \<open>base64\<close>

text \<open>\<open>/^[A-Za-z0-9+/=_-]{20,}$/\<close>\<close>

definition base64_pattern :: "jsstring \<Rightarrow> bool" where
  "base64_pattern s \<longleftrightarrow> list_all isBase64Any s \<and> 20 \<le> length s"

text \<open>\<open>c.charCodeAt(0) >= 32 && c.charCodeAt(0) < 127\<close>\<close>

definition isPrintable :: "nat \<Rightarrow> bool" where
  "isPrintable c \<longleftrightarrow> 32 \<le> c \<and> c < 127"

text \<open>
  The ratio is a quotient of two lengths.  It is compared as a real number: a quotient of
  integers below \<open>2^53\<close> that is not \<open>7/10\<close> differs from it by far more than the
  rounding of a double, and \<open>0.7\<close> itself is the double of \<open>7/10\<close>.  For an empty
  \<open>decoded\<close> the ratio is NaN and the comparison false, as \<open>0 / 0 > 0.7\<close> is here.
\<close>

definition printableRatio :: "jsstring \<Rightarrow> real" where
  "printableRatio decoded = real (length (filter isPrintable decoded)) / real (length decoded)"

definition base64_validate :: "jsstring \<Rightarrow> exn + bool" where
  "base64_validate content =
     (let trimmed = trim content in
      if 46 \<in> set trimmed then Inr False
      else try_catch
             (case atob (normalizeBase64Url trimmed) of Inl e \<Rightarrow> Inl e
              | Inr decoded \<Rightarrow> Inr (printableRatio decoded > 0.7 \<or> length decoded < 50))
             (\<lambda>_. Inr False))"

subsection \<open>unixTimestamp\<close>

text \<open>\<open>/^\d{10,13}$/\<close>\<close>

definition unixTimestamp_pattern :: "jsstring \<Rightarrow> bool" where
  "unixTimestamp_pattern s \<longleftrightarrow> list_all isDigit s \<and> 10 \<le> length s \<and> length s \<le> 13"

text \<open>
  Every comparison with NaN is false.  \<open>now / 1000\<close> is a real quotient: for a number of
  at most ten digits and a clock below \<open>2^53\<close> the rounding of the double cannot change
  the comparison.
\<close>

definition unixTimestamp_validate :: "host \<Rightarrow> jsstring \<Rightarrow> exn + bool" where
  "unixTimestamp_validate h content =
     (let num = parseInt (trim content) in
      if length content = 10 then
        Inr (case num of None \<Rightarrow> False
             | Some n \<Rightarrow> n > 0 \<and> real_of_int n < real_of_int (now h) / 1000 + 1577836800)
      else if length content = 13 then
        Inr (case num of None \<Rightarrow> False
             | Some n \<Rightarrow> n > 0 \<and> n < now h + 1577836800000)
      else Inr False)"

subsection \<open>regex\<close>

text \<open>
  \<open>/^\/(.*)\/([gimsuy]*)$/\<close>: the flags are the longest suffix of flag letters, the
  slash before them closes the pattern (a flag letter is not a slash, so no other split
  matches), and the dot does not match a line terminator.  The result is the two groups.
\<close>

definition regex_match :: "jsstring \<Rightarrow> (jsstring \<times> jsstring) option" where
  "regex_match s =
     (case s of
        [] \<Rightarrow> None
      | c # r \<Rightarrow>
          if c \<noteq> 47 then None
          else (case dropWhile isFlag (rev r) of
                  [] \<Rightarrow> None
                | d # b \<Rightarrow>
                    if d = 47 \<and> \<not> list_ex isLineTerminator b
                    then Some (rev b, rev (takeWhile isFlag (rev r)))
                    else None))"

text \<open>\<open>/^\/.*\/[gimsuy]*$/\<close>\<close>

definition regex_pattern :: "jsstring \<Rightarrow> bool" where
  "regex_pattern s \<longleftrightarrow> regex_match s \<noteq> None"

definition regex_validate :: "host \<Rightarrow> jsstring \<Rightarrow> exn + bool" where
  "regex_validate h content =
     try_catch
       (case regex_match (trim content) of
          Some (p, f) \<Rightarrow> (case newRegExp h p f of Inl e \<Rightarrow> Inl e | Inr _ \<Rightarrow> Inr True)
        | None \<Rightarrow> Inr False)
       (\<lambda>_. Inr False)"

subsection \<open>The table and the detector\<close>

record routing =
  tool :: string
  confidence :: real

record descriptor = routing +
  pattern :: "jsstring \<Rightarrow> bool"
  validate :: "jsstring \<Rightarrow> exn + bool"

record detection = routing +
  format :: string

definition DETECTION_PATTERNS :: "host \<Rightarrow> (string \<times> descriptor) list" where
  "DETECTION_PATTERNS h =
     [(''jwt'', \<lparr>tool = ''jwt'', confidence = 0.95,
                 pattern = jwt_pattern, validate = jwt_validate\<rparr>),
      (''json'', \<lparr>tool = ''json'', confidence = 0.9,
                  pattern = json_pattern, validate = json_validate\<rparr>),
      (''base64'', \<lparr>tool = ''base64'', confidence = 0.7,
                    pattern = base64_pattern, validate = base64_validate\<rparr>),
      (''unixTimestamp'', \<lparr>tool = ''timestamp'', confidence = 0.85,
                           pattern = unixTimestamp_pattern, validate = unixTimestamp_validate h\<rparr>),
      (''regex'', \<lparr>tool = ''regex'', confidence = 0.9,
                   pattern = regex_pattern, validate = regex_validate h\<rparr>)]"

definition DETECTION_ORDER :: "string list" where
  "DETECTION_ORDER = [''jwt'', ''json'', ''unixTimestamp'', ''regex'', ''base64'']"

text \<open>
  The loop over \<open>DETECTION_ORDER\<close>, with \<open>results\<close> as its accumulator.  An exception
  of a validator, or a key missing from the table, would leave the loop.
\<close>

fun detectLoop :: "host \<Rightarrow> jsstring \<Rightarrow> string list \<Rightarrow> detection list \<Rightarrow> exn + detection list" where
  "detectLoop h trimmed [] results = Inr results"
| "detectLoop h trimmed (formatKey # keys) results =
     (case map_of (DETECTION_PATTERNS h) formatKey of
        None \<Rightarrow> Inl TypeError
      | Some d \<Rightarrow>
          if pattern d trimmed then
            (case validate d trimmed of
               Inl e \<Rightarrow> Inl e
             | Inr ok \<Rightarrow>
                 if ok then
                   detectLoop h trimmed keys
                     (results @ [\<lparr>tool = tool d, confidence = confidence d, format = formatKey\<rparr>])
                 else detectLoop h trimmed keys results)
          else detectLoop h trimmed keys results)"

text \<open>
  \<open>results.sort((a, b) => b.confidence - a.confidence)\<close>: the sort is stable, by
  descending confidence.
\<close>

definition sortByConfidence :: "detection list \<Rightarrow> detection list" where
  "sortByConfidence results = sort_key (\<lambda>r. - confidence r) results"

definition detectFormat :: "host \<Rightarrow> jsstring \<Rightarrow> exn + detection option" where
  "detectFormat h content =
     (if content = [] then Inr None
      else let trimmed = trim content in
        if length trimmed = 0 then Inr None
        else (case detectLoop h trimmed DETECTION_ORDER [] of
                Inl e \<Rightarrow> Inl e
              | Inr results \<Rightarrow>
                  if length results > 0 then Inr (Some (hd (sortByConfidence results)))
                  else Inr None))"

text \<open>
  \<open>names[format] || format\<close> and \<open>names[tool] || tool\<close>, for the keys the detector
  produces and for every other string that names no property inherited from
  \<open>Object.prototype\<close> (on \<open>constructor\<close> or \<open>toString\<close> the lookup finds a function, not
  a name); \<open>processContent\<close> passes keys of the table only.
\<close>

definition getFormatDisplayName :: "string \<Rightarrow> string" where
  "getFormatDisplayName fmt =
     (case map_of [(''jwt'', ''JWT Token''), (''json'', ''JSON''), (''base64'', ''Base64''),
                   (''unixTimestamp'', ''Unix Timestamp''), (''regex'', ''Regular Expression'')] fmt of
        Some name \<Rightarrow> name | None \<Rightarrow> fmt)"

definition getToolDisplayName :: "string \<Rightarrow> string" where
  "getToolDisplayName t =
     (case map_of [(''jwt'', ''JWT Decoder''), (''json'', ''JSON Formatter''),
                   (''base64'', ''Base64 Encoder/Decoder''), (''timestamp'', ''Unix Time Converter''),
                   (''regex'', ''Regex Tester'')] t of
        Some name \<Rightarrow> name | None \<Rightarrow> t)"

section \<open>The paste router\<close>

text \<open>
  The record handed to \<open>onDetect\<close>:
  \<open>{content, ...detection, displayName, toolName}\<close>.
\<close>

record paste_event = detection +
  content :: jsstring
  displayName :: string
  toolName :: string

text \<open>
  A callback is caller-supplied code: it returns normally (\<open>None\<close>) or throws
  (\<open>Some e\<close>); its return value is not used.  The constructor takes each callback or
  nothing, \<open>options.onDetect || (() => {})\<close>.
\<close>

type_synonym 'a callback = "'a \<Rightarrow> exn option"

record options =
  options_onDetect :: "paste_event callback option"
  options_onError :: "exn callback option"

record SmartPaste =
  onDetect :: "paste_event callback"
  onError :: "exn callback"
  enabled :: bool

definition SmartPaste_constructor :: "options \<Rightarrow> SmartPaste" where
  "SmartPaste_constructor opts =
     \<lparr>onDetect = (case options_onDetect opts of Some f \<Rightarrow> f | None \<Rightarrow> (\<lambda>_. None)),
      onError = (case options_onError opts of Some f \<Rightarrow> f | None \<Rightarrow> (\<lambda>_. None)),
      enabled = True\<rparr>"

text \<open>
  A method is run on the router \<open>this\<close> and gives its completion, the callbacks it
  invoked, in order, with their arguments, and the router afterwards.  The methods
  \<open>enable\<close>, \<open>disable\<close> and \<open>handleGlobalPaste\<close>, which bind the router to the paste
  event of the document, are left out: no statement below is about them.
\<close>

datatype call = OnDetect paste_event | OnError exn

definition processContent ::
  "host \<Rightarrow> SmartPaste \<Rightarrow> jsstring \<Rightarrow> exn option \<times> call list \<times> SmartPaste" where
  "processContent h this text =
     (let (completion, calls) =
        (case detectFormat h text of
           Inl e \<Rightarrow> (Some e, [])
         | Inr (Some d) \<Rightarrow>
             (let ev = \<lparr>tool = tool d, confidence = confidence d, format = format d,
                        content = text,
                        displayName = getFormatDisplayName (format d),
                        toolName = getToolDisplayName (tool d)\<rparr>
              in (onDetect this ev, [OnDetect ev]))
         | Inr None \<Rightarrow>
             (let ev = \<lparr>tool = ''json'', confidence = 0, format = ''unknown'',
                        content = text,
                        displayName = ''Unknown Format'',
                        toolName = ''JSON Formatter''\<rparr>
              in (onDetect this ev, [OnDetect ev])))
      in case completion of
           None \<Rightarrow> (None, calls, this)
         | Some error \<Rightarrow> (onError this error, calls @ [OnError error], this))"

definition analyze ::
  "host \<Rightarrow> SmartPaste \<Rightarrow> jsstring \<Rightarrow> (exn + detection option) \<times> call list \<times> SmartPaste" where
  "analyze h this text = (detectFormat h text, [], this)"

section \<open>Notions used in the statements\<close>

text \<open>A descriptor accepts a text when its pattern matches and its validator says yes.\<close>

definition accepts :: "host \<Rightarrow> jsstring \<Rightarrow> string \<Rightarrow> bool" where
  "accepts h t k =
     (case map_of (DETECTION_PATTERNS h) k of
        None \<Rightarrow> False
      | Some d \<Rightarrow> pattern d t \<and> validate d t = Inr True)"

definition validating :: "host \<Rightarrow> jsstring \<Rightarrow> string list" where
  "validating h t = filter (accepts h t) DETECTION_ORDER"

definition confidenceOf :: "host \<Rightarrow> string \<Rightarrow> real" where
  "confidenceOf h k =
     (case map_of (DETECTION_PATTERNS h) k of None \<Rightarrow> 0 | Some d \<Rightarrow> confidence d)"

definition resultOf :: "host \<Rightarrow> string \<Rightarrow> detection" where
  "resultOf h k =
     (case map_of (DETECTION_PATTERNS h) k of
        None \<Rightarrow> \<lparr>tool = [], confidence = 0, format = k\<rparr>
      | Some d \<Rightarrow> \<lparr>tool = tool d, confidence = confidence d, format = k\<rparr>)"

text \<open>
  A host for the examples: the clock reads 1700000000000 (14 November 2023), and the
  engine's verdict is never consulted, the examples using patterns of letters and
  digits only.
\<close>

definition exampleHost :: host where
  "exampleHost = \<lparr>patternCompiles = (\<lambda>p f. False), now = 1700000000000\<rparr>"

definition fallbackEvent :: "jsstring \<Rightarrow> paste_event" where
  "fallbackEvent text =
     \<lparr>tool = ''json'', confidence = 0, format = ''unknown'', content = text,
      displayName = ''Unknown Format'', toolName = ''JSON Formatter''\<rparr>"

text \<open>The record \<open>processContent\<close> builds for a text: the enriched detection, or the fallback.\<close>

definition eventOf :: "host \<Rightarrow> jsstring \<Rightarrow> paste_event" where
  "eventOf h text =
     (case detectFormat h text of
        Inr (Some d) \<Rightarrow>
          \<lparr>tool = tool d, confidence = confidence d, format = format d, content = text,
           displayName = getFormatDisplayName (format d),
           toolName = getToolDisplayName (tool d)\<rparr>
      | _ \<Rightarrow> fallbackEvent text)"

text \<open>A router whose two callbacks both throw: \<open>onError\<close> rethrows what it is given.\<close>

definition throwingRouter :: SmartPaste where
  "throwingRouter =
     SmartPaste_constructor
       \<lparr>options_onDetect = Some (\<lambda>_. Some (Thrown 1)), options_onError = Some (\<lambda>e. Some e)\<rparr>"








lemmas eval_defs =
  js_def trim_def isWhiteSpace_def isDigit_def isAlnum_def isBase64Url_def isBase64Any_def
  isFlag_def isLineTerminator_def normalizeBase64Url_def isAsciiWhitespace_def base64Value_def
  stripPadding_def atob_def digitsValue_def parseInt_def hexValue_def hex4_def unescape_def
  lexInt_def lexFrac_def lexDigitsSigned_def lexExp_def lexNumber_def isJsonWhitespace_def
  nextToken_def JSON_parse_def roundsToZero_def newRegExp_def try_catch_def jwt_pattern_def
  jwt_claims_def jwt_decode_def jwt_validate_def json_pattern_def json_validate_def
  base64_pattern_def isPrintable_def printableRatio_def base64_validate_def
  unixTimestamp_pattern_def unixTimestamp_validate_def regex_match_def regex_pattern_def
  regex_validate_def DETECTION_PATTERNS_def DETECTION_ORDER_def sortByConfidence_def
  detectFormat_def exampleHost_def Let_def

section \<open>The detector never throws\<close>

lemma try_catch_total: "\<exists>b. try_catch body (\<lambda>_. Inr False) = Inr b"
  by (cases body) (auto simp: try_catch_def)

lemma jwt_validate_total: "\<exists>b. jwt_validate t = Inr b"
  using try_catch_total by (auto simp: jwt_validate_def Let_def)

lemma json_validate_total: "\<exists>b. json_validate t = Inr b"
  using try_catch_total by (auto simp: json_validate_def)

lemma base64_validate_total: "\<exists>b. base64_validate t = Inr b"
  using try_catch_total by (auto simp: base64_validate_def Let_def)

lemma unixTimestamp_validate_total: "\<exists>b. unixTimestamp_validate h t = Inr b"
  by (auto simp: unixTimestamp_validate_def Let_def)

lemma regex_validate_total: "\<exists>b. regex_validate h t = Inr b"
  using try_catch_total by (auto simp: regex_validate_def)

lemma map_of_DETECTION_PATTERNS:
  "map_of (DETECTION_PATTERNS h) k = Some d \<Longrightarrow>
     (\<exists>b. validate d t = Inr b)"
  using jwt_validate_total[of t] json_validate_total[of t] base64_validate_total[of t]
    unixTimestamp_validate_total[of h t] regex_validate_total[of h t]
  by (auto simp: DETECTION_PATTERNS_def split: if_splits)

lemma detectLoop_eq:
  assumes "\<forall>k\<in>set keys. map_of (DETECTION_PATTERNS h) k \<noteq> None"
  shows "detectLoop h t keys results = Inr (results @ map (resultOf h) (filter (accepts h t) keys))"
  using assms
proof (induction keys arbitrary: results)
  case Nil
  show ?case by simp
next
  case (Cons k keys)
  then obtain d where d: "map_of (DETECTION_PATTERNS h) k = Some d" by auto
  from map_of_DETECTION_PATTERNS[OF d, of t] obtain b where b: "validate d t = Inr b" by blast
  from Cons have IH: "\<And>rs. detectLoop h t keys rs = Inr (rs @ map (resultOf h) (filter (accepts h t) keys))"
    by simp
  have a: "accepts h t k = (pattern d t \<and> b)"
    by (simp add: accepts_def d b)
  have r: "resultOf h k = \<lparr>tool = tool d, confidence = confidence d, format = k\<rparr>"
    by (simp add: resultOf_def d)
  show ?case
    by (simp add: d b IH a r)
qed

lemma DETECTION_ORDER_defined:
  "\<forall>k\<in>set DETECTION_ORDER. map_of (DETECTION_PATTERNS h) k \<noteq> None"
  by (simp add: DETECTION_ORDER_def DETECTION_PATTERNS_def)

lemma detectFormat_eq:
  "detectFormat h text =
     Inr (if text = [] \<or> trim text = [] \<or> validating h (trim text) = [] then None
          else Some (hd (sortByConfidence (map (resultOf h) (validating h (trim text))))))"
  by (simp add: detectFormat_def Let_def detectLoop_eq[OF DETECTION_ORDER_defined] validating_def)

section \<open>The winner of the stable sort\<close>

lemma hd_insort_key:
  "hd (insort_key f x ys) = (if ys = [] \<or> f x \<le> f (hd ys) then x else hd ys)"
  by (cases ys) simp_all

lemma sort_key_Nil_iff: "sort_key f xs = [] \<longleftrightarrow> xs = []"
  by (metis length_sort length_0_conv)

text \<open>
  The head of a stable sort is the first element with the least key: every element before
  it has a strictly greater key, and no element has a smaller one.
\<close>

lemma hd_sort_key_split:
  assumes "xs \<noteq> []"
  shows "\<exists>ys zs. xs = ys @ hd (sort_key f xs) # zs \<and>
           (\<forall>y\<in>set ys. f (hd (sort_key f xs)) < f y) \<and>
           (\<forall>z\<in>set zs. f (hd (sort_key f xs)) \<le> f z)"
  using assms
proof (induction xs)
  case Nil
  then show ?case by simp
next
  case (Cons x xs)
  show ?case
  proof (cases "xs = []")
    case True
    then show ?thesis by (intro exI[of _ "[]"]) simp
  next
    case False
    let ?m = "hd (sort_key f xs)"
    from Cons.IH[OF False] obtain ys zs where
      xs: "xs = ys @ ?m # zs" and ys: "\<forall>y\<in>set ys. f ?m < f y" and zs: "\<forall>z\<in>set zs. f ?m \<le> f z"
      by blast
    have ne: "sort_key f xs \<noteq> []" using False by (simp add: sort_key_Nil_iff)
    have hd: "hd (sort_key f (x # xs)) = (if f x \<le> f ?m then x else ?m)"
      using ne by (simp add: hd_insort_key)
    show ?thesis
    proof (cases "f x \<le> f ?m")
      case True
      have "\<forall>z\<in>set xs. f ?m \<le> f z"
        using ys zs by (subst xs) auto
      with True have "\<forall>z\<in>set xs. f x \<le> f z"
        by (meson order_trans)
      with True hd show ?thesis
        by (intro exI[of _ "[]"] exI[of _ xs]) simp
    next
      case F: False
      with hd have h: "hd (sort_key f (x # xs)) = ?m" by simp
      show ?thesis
        unfolding h
        using xs ys zs F
        by (intro exI[of _ "x # ys"] exI[of _ zs]) auto
    qed
  qed
qed

section \<open>Selection by confidence\<close>

lemma format_resultOf: "format (resultOf h k) = k"
  by (simp add: resultOf_def split: option.splits)

lemma confidence_resultOf: "confidence (resultOf h k) = confidenceOf h k"
  by (simp add: resultOf_def confidenceOf_def split: option.splits)

lemma trim_Nil: "trim [] = []"
  by (simp add: trim_def)

lemma validating_Nil: "validating h [] = []"
  by (simp add: validating_def accepts_def DETECTION_ORDER_def DETECTION_PATTERNS_def
      jwt_pattern_def json_pattern_def unixTimestamp_pattern_def regex_pattern_def
      regex_match_def base64_pattern_def)

lemma detectFormat_winner:
  assumes ne: "validating h (trim text) \<noteq> []"
  shows "\<exists>r ks ks'. detectFormat h text = Inr (Some r) \<and>
           r = resultOf h (format r) \<and>
           validating h (trim text) = ks @ format r # ks' \<and>
           (\<forall>k\<in>set ks. confidenceOf h k < confidence r) \<and>
           (\<forall>k\<in>set ks'. confidenceOf h k \<le> confidence r)"
proof -
  let ?V = "validating h (trim text)"
  let ?rs = "map (resultOf h) ?V"
  let ?r = "hd (sortByConfidence ?rs)"
  from ne have t: "trim text \<noteq> []" "text \<noteq> []"
    using validating_Nil trim_Nil by metis+
  have df: "detectFormat h text = Inr (Some ?r)"
    using ne t by (simp add: detectFormat_eq)
  from ne have "?rs \<noteq> []" by simp
  from hd_sort_key_split[OF this, of "\<lambda>r. - confidence r"]
  obtain ys zs where
    split: "?rs = ys @ ?r # zs" and
    ys: "\<forall>y\<in>set ys. confidence y < confidence ?r" and
    zs: "\<forall>z\<in>set zs. confidence z \<le> confidence ?r"
    unfolding sortByConfidence_def by auto
  have V: "?V = map format ?rs"
    by (simp add: comp_def format_resultOf)
  have mem: "\<And>y. y \<in> set ?rs \<Longrightarrow> y = resultOf h (format y)"
    by (auto simp: format_resultOf)
  have c: "\<And>y. y \<in> set ?rs \<Longrightarrow> confidenceOf h (format y) = confidence y"
    using mem confidence_resultOf by metis
  have r: "?r = resultOf h (format ?r)"
    using mem[of ?r] split by (metis in_set_conv_decomp)
  have V2: "?V = map format ys @ format ?r # map format zs"
    by (subst V, subst split) simp
  have in_ys: "\<And>y. y \<in> set ys \<Longrightarrow> y \<in> set ?rs" and in_zs: "\<And>z. z \<in> set zs \<Longrightarrow> z \<in> set ?rs"
    by (subst split, simp)+
  have 1: "\<forall>k\<in>set (map format ys). confidenceOf h k < confidence ?r"
    using ys c in_ys by auto
  have 2: "\<forall>k\<in>set (map format zs). confidenceOf h k \<le> confidence ?r"
    using zs c in_zs by auto
  from df r V2 1 2 show ?thesis by blast
qed

text \<open>
  C1.  When more than one descriptor accepts the trimmed input, \<open>detectFormat\<close> returns a
  result (not null) whose confidence is the greatest confidence among the accepting
  descriptors, and whose format is the first descriptor of \<open>DETECTION_ORDER\<close> among
  those that accept with that greatest confidence.
\<close>

theorem detectFormat_highest_confidence:
  assumes "1 < length (validating h (trim text))"
  shows "\<exists>r. detectFormat h text = Inr (Some r) \<and>
           confidence r = Max (confidenceOf h ` set (validating h (trim text))) \<and>
           format r = hd (filter (\<lambda>k. confidenceOf h k =
                                      Max (confidenceOf h ` set (validating h (trim text))))
                           (validating h (trim text)))"
proof -
  let ?V = "validating h (trim text)"
  from assms have "?V \<noteq> []" by auto
  from detectFormat_winner[OF this] obtain r ks ks' where
    df: "detectFormat h text = Inr (Some r)" and r: "r = resultOf h (format r)" and
    V: "?V = ks @ format r # ks'" and
    lt: "\<forall>k\<in>set ks. confidenceOf h k < confidence r" and
    le: "\<forall>k\<in>set ks'. confidenceOf h k \<le> confidence r"
    by blast
  have cr: "confidenceOf h (format r) = confidence r"
    using r confidence_resultOf by metis
  have mx: "Max (confidenceOf h ` set ?V) = confidence r"
  proof (rule Max_eqI)
    show "finite (confidenceOf h ` set ?V)" by simp
    show "confidence r \<in> confidenceOf h ` set ?V"
      by (subst V) (simp add: cr)
    fix y assume "y \<in> confidenceOf h ` set ?V"
    then obtain k where "k \<in> set ks \<or> k = format r \<or> k \<in> set ks'" "y = confidenceOf h k"
      by (subst (asm) V) auto
    with lt le cr show "y \<le> confidence r" by force
  qed
  have "filter (\<lambda>k. confidenceOf h k = confidence r) ks = []"
    using lt by (auto simp: filter_empty_conv)
  then have "hd (filter (\<lambda>k. confidenceOf h k = confidence r) ?V) = format r"
    by (subst V) (simp add: cr)
  with df mx show ?thesis by simp
qed

theorem detectFormat_highest_confidence_witness:
  "1 < length (validating exampleHost (trim (js ''/abcdefghijklmnopqrstuv/''))) \<and>
   (\<exists>r. detectFormat exampleHost (js ''/abcdefghijklmnopqrstuv/'') = Inr (Some r) \<and>
        confidence r = Max (confidenceOf exampleHost `
                              set (validating exampleHost (trim (js ''/abcdefghijklmnopqrstuv/'')))) \<and>
        format r = hd (filter (\<lambda>k. confidenceOf exampleHost k =
                          Max (confidenceOf exampleHost `
                                 set (validating exampleHost (trim (js ''/abcdefghijklmnopqrstuv/'')))))
                        (validating exampleHost (trim (js ''/abcdefghijklmnopqrstuv/'')))))"
proof -
  have v: "validating exampleHost (trim (js ''/abcdefghijklmnopqrstuv/'')) = [''regex'', ''base64'']"
    by (simp add: validating_def accepts_def eval_defs)
  then have h: "1 < length (validating exampleHost (trim (js ''/abcdefghijklmnopqrstuv/'')))"
    by simp
  from detectFormat_highest_confidence[OF h] h show ?thesis by blast
qed

section \<open>Trimming and the shapes of the patterns\<close>

lemma trim_id: "\<forall>c\<in>set s. \<not> isWhiteSpace c \<Longrightarrow> trim s = s"
proof -
  assume a: "\<forall>c\<in>set s. \<not> isWhiteSpace c"
  then have 1: "dropWhile isWhiteSpace s = s"
    by (cases s) simp_all
  from a have "\<forall>c\<in>set (rev s). \<not> isWhiteSpace c" by simp
  then have "dropWhile isWhiteSpace (rev s) = rev s"
    by (cases "rev s") simp_all
  with 1 show ?thesis by (simp add: trim_def)
qed



lemma isDigit_simps:
  "isDigit c \<Longrightarrow> isBase64Url c"
  "isDigit c \<Longrightarrow> isBase64Any c"
  "isDigit c \<Longrightarrow> \<not> isWhiteSpace c"
  by (auto simp: isDigit_def isBase64Url_def isBase64Any_def isAlnum_def isWhiteSpace_def)




lemma jwt_pattern_dot: "jwt_pattern s \<Longrightarrow> 46 \<in> set s"
proof -
  assume "jwt_pattern s"
  then obtain r where "dropWhile isBase64Url s = 46 # r"
    by (auto simp: jwt_pattern_def split: list.splits)
  then have "46 \<in> set (dropWhile isBase64Url s)" by simp
  then show ?thesis by (rule set_dropWhileD)
qed

lemma json_pattern_hd:
  "s \<noteq> [] \<Longrightarrow> \<not> isWhiteSpace (hd s) \<Longrightarrow> json_pattern s \<longleftrightarrow> hd s = 91 \<or> hd s = 123"
  by (cases s) (simp_all add: json_pattern_def)

lemma regex_pattern_hd: "regex_pattern s \<Longrightarrow> s \<noteq> [] \<and> hd s = 47"
  by (cases s) (auto simp: regex_pattern_def regex_match_def split: if_splits)

lemma unixTimestamp_excludes:
  assumes "unixTimestamp_pattern s"
  shows "\<not> jwt_pattern s" "\<not> json_pattern s" "\<not> regex_pattern s" "\<not> base64_pattern s"
proof -
  from assms have d: "\<forall>c\<in>set s. isDigit c" and ne: "s \<noteq> []" and len: "length s \<le> 13"
    by (auto simp: unixTimestamp_pattern_def list_all_iff)
  from ne d have h: "isDigit (hd s)" by simp
  from d have "46 \<notin> set s" by (auto simp: isDigit_def)
  then show "\<not> jwt_pattern s" using jwt_pattern_dot by blast
  from h show "\<not> json_pattern s"
    using json_pattern_hd[OF ne] isDigit_simps(3)[OF h] by (auto simp: isDigit_def)
  from h show "\<not> regex_pattern s"
    using regex_pattern_hd[of s] by (auto simp: isDigit_def)
  from len show "\<not> base64_pattern s" by (simp add: base64_pattern_def)
qed



lemma accepts_simps:
  "accepts h t ''jwt'' \<longleftrightarrow> jwt_pattern t \<and> jwt_validate t = Inr True"
  "accepts h t ''json'' \<longleftrightarrow> json_pattern t \<and> json_validate t = Inr True"
  "accepts h t ''unixTimestamp'' \<longleftrightarrow>
     unixTimestamp_pattern t \<and> unixTimestamp_validate h t = Inr True"
  "accepts h t ''regex'' \<longleftrightarrow> regex_pattern t \<and> regex_validate h t = Inr True"
  "accepts h t ''base64'' \<longleftrightarrow> base64_pattern t \<and> base64_validate t = Inr True"
  by (simp_all add: accepts_def DETECTION_PATTERNS_def)

lemma validating_eq:
  "validating h t =
     (if accepts h t ''jwt'' then [''jwt''] else []) @
     (if accepts h t ''json'' then [''json''] else []) @
     (if accepts h t ''unixTimestamp'' then [''unixTimestamp''] else []) @
     (if accepts h t ''regex'' then [''regex''] else []) @
     (if accepts h t ''base64'' then [''base64''] else [])"
  by (simp add: validating_def DETECTION_ORDER_def)

lemma resultOf_simps:
  "resultOf h ''jwt'' = \<lparr>tool = ''jwt'', confidence = 0.95, format = ''jwt''\<rparr>"
  "resultOf h ''json'' = \<lparr>tool = ''json'', confidence = 0.9, format = ''json''\<rparr>"
  "resultOf h ''unixTimestamp'' =
     \<lparr>tool = ''timestamp'', confidence = 0.85, format = ''unixTimestamp''\<rparr>"
  "resultOf h ''regex'' = \<lparr>tool = ''regex'', confidence = 0.9, format = ''regex''\<rparr>"
  "resultOf h ''base64'' = \<lparr>tool = ''base64'', confidence = 0.7, format = ''base64''\<rparr>"
  by (simp_all add: resultOf_def DETECTION_PATTERNS_def)

lemma sortByConfidence_single: "sortByConfidence [r] = [r]"
  by (simp add: sortByConfidence_def)

section \<open>Timestamps\<close>

lemma digits_trim: "list_all isDigit s \<Longrightarrow> trim s = s"
  by (rule trim_id) (auto simp: list_all_iff dest: isDigit_simps(3))

lemma parseInt_digits:
  assumes "list_all isDigit s" "s \<noteq> []"
  shows "parseInt s = Some (digitsValue s)"
proof -
  from assms obtain c r where s: "s = c # r" and c: "isDigit c" by (cases s) auto
  from c have nw: "\<not> isWhiteSpace c" by (rule isDigit_simps(3))
  from c have ns: "c \<noteq> 45" "c \<noteq> 43" by (auto simp: isDigit_def)
  from assms(1) have tw: "takeWhile isDigit s = s"
    by (simp add: list_all_iff)
  have "dropWhile isWhiteSpace s = s" using s nw by simp
  then show ?thesis
    using s ns tw by (simp add: parseInt_def Let_def)
qed

text \<open>The validator on a text that matches the pattern.\<close>

lemma unixTimestamp_validate_digits:
  assumes "list_all isDigit t" "t \<noteq> []"
  shows "unixTimestamp_validate h t =
           Inr (length t = 10 \<and> 0 < digitsValue t \<and>
                  real_of_int (digitsValue t) < real_of_int (now h) / 1000 + 1577836800 \<or>
                length t = 13 \<and> 0 < digitsValue t \<and> digitsValue t < now h + 1577836800000)"
  by (simp add: unixTimestamp_validate_def Let_def digits_trim[OF assms(1)]
      parseInt_digits[OF assms])

lemma validating_unixTimestamp:
  assumes "accepts h t ''unixTimestamp''"
  shows "validating h t = [''unixTimestamp'']"
proof -
  from assms have p: "unixTimestamp_pattern t" by (simp add: accepts_simps)
  from unixTimestamp_excludes[OF p] assms show ?thesis
    by (simp add: validating_eq accepts_simps)
qed

text \<open>
  C9.  A string of 11 or 12 ASCII digits is classified as nothing: the timestamp pattern
  matches it, the timestamp validator refuses its length, and no other pattern matches.
\<close>

theorem detectFormat_11_12_digits:
  assumes "list_all isDigit s" and "length s = 11 \<or> length s = 12"
  shows "unixTimestamp_pattern s \<and> unixTimestamp_validate h s = Inr False \<and>
         \<not> jwt_pattern s \<and> \<not> json_pattern s \<and> \<not> regex_pattern s \<and> \<not> base64_pattern s \<and>
         detectFormat h s = Inr None"
proof -
  from assms have p: "unixTimestamp_pattern s" by (auto simp: unixTimestamp_pattern_def)
  from assms(2) have ne: "s \<noteq> []" by auto
  from assms(2) have v: "unixTimestamp_validate h s = Inr False"
    by (auto simp: unixTimestamp_validate_def Let_def)
  note ex = unixTimestamp_excludes[OF p]
  have "validating h s = []"
    using ex v by (simp add: validating_eq accepts_simps)
  then have "detectFormat h s = Inr None"
    by (simp add: detectFormat_eq digits_trim[OF assms(1)])
  with p v ex show ?thesis by simp
qed

theorem detectFormat_11_12_digits_witness:
  "list_all isDigit (js ''17000000001'') \<and>
   (length (js ''17000000001'') = 11 \<or> length (js ''17000000001'') = 12) \<and>
   unixTimestamp_pattern (js ''17000000001'') \<and>
   unixTimestamp_validate exampleHost (js ''17000000001'') = Inr False \<and>
   detectFormat exampleHost (js ''17000000001'') = Inr None"
proof -
  have 1: "list_all isDigit (js ''17000000001'')" by (simp add: js_def isDigit_def)
  have 2: "length (js ''17000000001'') = 11 \<or> length (js ''17000000001'') = 12"
    by (simp add: js_def)
  from detectFormat_11_12_digits[OF 1 2, of exampleHost] 1 2 show ?thesis by simp
qed

text \<open>
  C6.  \<open>detectFormat\<close> answers \<open>unixTimestamp\<close> exactly when the trimmed input is made of
  digits only, has length 10 or 13, and its decimal value \<open>v\<close> satisfies
  \<open>0 < v < now / 1000 + 1577836800\<close> for length 10 (seconds) or
  \<open>0 < v < now + 1577836800000\<close> for length 13 (milliseconds); the result then has tool
  \<open>timestamp\<close> and confidence 0.85.
\<close>

theorem detectFormat_unixTimestamp_iff:
  "((\<exists>r. detectFormat h text = Inr (Some r) \<and> format r = ''unixTimestamp'') \<longleftrightarrow>
      list_all isDigit (trim text) \<and>
      (length (trim text) = 10 \<and> 0 < digitsValue (trim text) \<and>
         real_of_int (digitsValue (trim text)) < real_of_int (now h) / 1000 + 1577836800 \<or>
       length (trim text) = 13 \<and> 0 < digitsValue (trim text) \<and>
         digitsValue (trim text) < now h + 1577836800000)) \<and>
   (\<forall>r. detectFormat h text = Inr (Some r) \<and> format r = ''unixTimestamp'' \<longrightarrow>
        tool r = ''timestamp'' \<and> confidence r = 0.85)"
proof -
  let ?t = "trim text"
  let ?rhs = "list_all isDigit ?t \<and>
      (length ?t = 10 \<and> 0 < digitsValue ?t \<and>
         real_of_int (digitsValue ?t) < real_of_int (now h) / 1000 + 1577836800 \<or>
       length ?t = 13 \<and> 0 < digitsValue ?t \<and> digitsValue ?t < now h + 1577836800000)"
  have acc: "accepts h ?t ''unixTimestamp'' \<longleftrightarrow> ?rhs"
  proof
    assume a: "accepts h ?t ''unixTimestamp''"
    then have p: "unixTimestamp_pattern ?t" and v: "unixTimestamp_validate h ?t = Inr True"
      by (simp_all add: accepts_simps)
    from p have d: "list_all isDigit ?t" and ne: "?t \<noteq> []"
      by (auto simp: unixTimestamp_pattern_def)
    from v show ?rhs
      unfolding unixTimestamp_validate_digits[OF d ne] using d by simp
  next
    assume r: ?rhs
    then have d: "list_all isDigit ?t" and ne: "?t \<noteq> []" by auto
    from r have p: "unixTimestamp_pattern ?t" by (auto simp: unixTimestamp_pattern_def)
    from r have "unixTimestamp_validate h ?t = Inr True"
      unfolding unixTimestamp_validate_digits[OF d ne] by simp
    with p show "accepts h ?t ''unixTimestamp''" by (simp add: accepts_simps)
  qed
  have res: "\<And>r. detectFormat h text = Inr (Some r) \<Longrightarrow> format r = ''unixTimestamp'' \<Longrightarrow>
               accepts h ?t ''unixTimestamp'' \<and> r = resultOf h ''unixTimestamp''"
  proof -
    fix r assume df: "detectFormat h text = Inr (Some r)" and f: "format r = ''unixTimestamp''"
    from df have ne: "validating h ?t \<noteq> []"
      by (auto simp: detectFormat_eq split: if_splits)
    from detectFormat_winner[OF ne] df obtain ks ks' where
      r: "r = resultOf h (format r)" and V: "validating h ?t = ks @ format r # ks'"
      by auto
    from V f have "''unixTimestamp'' \<in> set (validating h ?t)" by simp
    then have "accepts h ?t ''unixTimestamp''" by (simp add: validating_def)
    with r f show "accepts h ?t ''unixTimestamp'' \<and> r = resultOf h ''unixTimestamp''" by simp
  qed
  have 1: "(\<exists>r. detectFormat h text = Inr (Some r) \<and> format r = ''unixTimestamp'') \<longleftrightarrow> ?rhs"
  proof
    assume "\<exists>r. detectFormat h text = Inr (Some r) \<and> format r = ''unixTimestamp''"
    with res acc show ?rhs by blast
  next
    assume ?rhs
    with acc have a: "accepts h ?t ''unixTimestamp''" by simp
    from validating_unixTimestamp[OF a] have V: "validating h ?t = [''unixTimestamp'']" .
    then have ne: "?t \<noteq> []" "text \<noteq> []"
      using validating_Nil trim_Nil by (metis list.distinct(1))+
    have "detectFormat h text = Inr (Some (resultOf h ''unixTimestamp''))"
      using ne by (simp add: detectFormat_eq V sortByConfidence_single)
    then show "\<exists>r. detectFormat h text = Inr (Some r) \<and> format r = ''unixTimestamp''"
      by (simp add: resultOf_simps)
  qed
  have 2: "\<forall>r. detectFormat h text = Inr (Some r) \<and> format r = ''unixTimestamp'' \<longrightarrow>
        tool r = ''timestamp'' \<and> confidence r = 0.85"
    using res by (auto simp: resultOf_simps)
  from 1 2 show ?thesis by blast
qed

theorem detectFormat_unixTimestamp_iff_witness:
  "list_all isDigit (trim (js ''1700000000'')) \<and> length (trim (js ''1700000000'')) = 10 \<and>
   digitsValue (trim (js ''1700000000'')) = 1700000000 \<and>
   (\<exists>r. detectFormat exampleHost (js ''1700000000'') = Inr (Some r) \<and>
        format r = ''unixTimestamp'' \<and> tool r = ''timestamp'' \<and> confidence r = 0.85)"
proof -
  have t: "trim (js ''1700000000'') = [49, 55, 48, 48, 48, 48, 48, 48, 48, 48]"
    by (simp add: js_def trim_def isWhiteSpace_def)
  have d: "list_all isDigit (trim (js ''1700000000''))" unfolding t by (simp add: isDigit_def)
  have l: "length (trim (js ''1700000000'')) = 10" unfolding t by simp
  have v: "digitsValue (trim (js ''1700000000'')) = 1700000000"
    unfolding t by (simp add: digitsValue_def)
  have n: "now exampleHost = 1700000000000" by (simp add: exampleHost_def)
  from detectFormat_unixTimestamp_iff[of exampleHost "js ''1700000000''"] d l v n
  show ?thesis by auto
qed

section \<open>The clock\<close>

lemma regex_validate_host:
  assumes "patternCompiles h1 = patternCompiles h2"
  shows "regex_validate h1 t = regex_validate h2 t"
proof -
  have e: "newRegExp h1 = newRegExp h2"
    by (intro ext) (simp add: newRegExp_def assms)
  show ?thesis unfolding regex_validate_def e by (rule refl)
qed

lemma unixTimestamp_accepts_host:
  assumes "now h1 = now h2 \<or> \<not> (list_all isDigit t \<and> (length t = 10 \<or> length t = 13))"
  shows "accepts h1 t ''unixTimestamp'' = accepts h2 t ''unixTimestamp''"
proof (cases "now h1 = now h2")
  case True
  show ?thesis unfolding accepts_simps unixTimestamp_validate_def True by (rule refl)
next
  case False
  with assms have "\<not> list_all isDigit t \<or> (length t \<noteq> 10 \<and> length t \<noteq> 13)" by blast
  then show ?thesis
    by (auto simp: accepts_simps unixTimestamp_pattern_def unixTimestamp_validate_def Let_def)
qed

text \<open>
  C3, as it holds.  \<open>detectFormat\<close> has no state and no effect: its result is a function
  of the input string, of the host's regular-expression engine and of the reading of the
  clock.  Two calls on the same string give the same result when the clock reads the
  same, and, whatever the clock reads, when the trimmed string is not made of 10 or of
  13 digits.
\<close>

theorem detectFormat_deterministic:
  assumes "patternCompiles h1 = patternCompiles h2"
    and "now h1 = now h2 \<or>
         \<not> (list_all isDigit (trim s) \<and> (length (trim s) = 10 \<or> length (trim s) = 13))"
  shows "detectFormat h1 s = detectFormat h2 s"
proof -
  have a: "\<And>k. k \<in> set DETECTION_ORDER \<Longrightarrow> accepts h1 (trim s) k = accepts h2 (trim s) k"
    using unixTimestamp_accepts_host[OF assms(2)] regex_validate_host[OF assms(1)]
    by (auto simp: DETECTION_ORDER_def accepts_simps)
  then have V: "validating h1 (trim s) = validating h2 (trim s)"
    unfolding validating_def by (rule filter_cong[OF refl])
  have "\<And>k. k \<in> set DETECTION_ORDER \<Longrightarrow> resultOf h1 k = resultOf h2 k"
    by (auto simp: DETECTION_ORDER_def resultOf_simps)
  then have M: "map (resultOf h1) (validating h2 (trim s)) = map (resultOf h2) (validating h2 (trim s))"
    by (intro map_cong[OF refl]) (simp add: validating_def)
  show ?thesis unfolding detectFormat_eq V M by (rule refl)
qed

theorem detectFormat_deterministic_witness:
  "patternCompiles exampleHost = patternCompiles (exampleHost\<lparr>now := 1700000010000\<rparr>) \<and>
   \<not> (list_all isDigit (trim (js ''SGVsbG8sIFdvcmxkIQ=='')) \<and>
       (length (trim (js ''SGVsbG8sIFdvcmxkIQ=='')) = 10 \<or>
        length (trim (js ''SGVsbG8sIFdvcmxkIQ=='')) = 13)) \<and>
   detectFormat exampleHost (js ''SGVsbG8sIFdvcmxkIQ=='') =
     detectFormat (exampleHost\<lparr>now := 1700000010000\<rparr>) (js ''SGVsbG8sIFdvcmxkIQ=='')"
proof -
  have 1: "patternCompiles exampleHost = patternCompiles (exampleHost\<lparr>now := 1700000010000\<rparr>)"
    by simp
  have 2: "now exampleHost = now (exampleHost\<lparr>now := 1700000010000\<rparr>) \<or>
           \<not> (list_all isDigit (trim (js ''SGVsbG8sIFdvcmxkIQ=='')) \<and>
       (length (trim (js ''SGVsbG8sIFdvcmxkIQ=='')) = 10 \<or>
        length (trim (js ''SGVsbG8sIFdvcmxkIQ=='')) = 13))"
    by (simp add: js_def trim_def isWhiteSpace_def)
  have 3: "\<not> (list_all isDigit (trim (js ''SGVsbG8sIFdvcmxkIQ=='')) \<and>
       (length (trim (js ''SGVsbG8sIFdvcmxkIQ=='')) = 10 \<or>
        length (trim (js ''SGVsbG8sIFdvcmxkIQ=='')) = 13))"
    by (simp add: js_def trim_def isWhiteSpace_def)
  from detectFormat_deterministic[OF 1 2] 1 3 show ?thesis by blast
qed

text \<open>
  C3, as stated, fails: the timestamp validator reads the clock, and two calls ten
  seconds apart disagree on \<open>3277836805\<close>, which lies between the two bounds.
\<close>

theorem detectFormat_clock_counterexample:
  "detectFormat exampleHost (js ''3277836805'') = Inr None \<and>
   detectFormat (exampleHost\<lparr>now := 1700000010000\<rparr>) (js ''3277836805'') =
     Inr (Some \<lparr>tool = ''timestamp'', confidence = 0.85, format = ''unixTimestamp''\<rparr>)"
  by (simp add: eval_defs)

section \<open>The router\<close>

text \<open>
  C8.  \<open>analyze\<close> returns what \<open>detectFormat\<close> returns on the same text, invokes
  no callback, and leaves the router as it was: the enabled flag and both callbacks.
\<close>

theorem analyze_read_only:
  "fst (analyze h this text) = detectFormat h text \<and>
   fst (snd (analyze h this text)) = [] \<and>
   snd (snd (analyze h this text)) = this \<and>
   enabled (snd (snd (analyze h this text))) = enabled this \<and>
   onDetect (snd (snd (analyze h this text))) = onDetect this \<and>
   onError (snd (snd (analyze h this text))) = onError this"
  by (simp add: analyze_def)

text \<open>
  What \<open>processContent\<close> does on every text: it builds the record, calls \<open>onDetect\<close>
  with it, and, when that throws, calls \<open>onError\<close> with the exception; its completion is
  that of the last callback it called.
\<close>

lemma processContent_eq:
  "processContent h this text =
     (case onDetect this (eventOf h text) of
        None \<Rightarrow> (None, [OnDetect (eventOf h text)], this)
      | Some e \<Rightarrow> (onError this e, [OnDetect (eventOf h text), OnError e], this))"
proof -
  obtain r where r: "detectFormat h text = Inr r"
    by (simp add: detectFormat_eq)
  show ?thesis
    by (cases r) (simp_all add: processContent_def eventOf_def r fallbackEvent_def Let_def
        split: option.splits)
qed

lemma detectFormat_blank: "detectFormat h [] = Inr None" "detectFormat h (js ''   '') = Inr None"
  by (simp_all add: detectFormat_def js_def trim_def isWhiteSpace_def)

lemma throwingRouter_simps:
  "onDetect throwingRouter ev = Some (Thrown 1)" "onError throwingRouter e = Some e"
  by (simp_all add: throwingRouter_def SmartPaste_constructor_def)

text \<open>
  C4, as it holds.  When \<open>detectFormat\<close> returns null, as it does on the empty string and
  on three spaces, \<open>processContent\<close> calls \<open>onDetect\<close> once, first, with the fallback
  record for the text (a record, never null).  It then returns normally if \<open>onDetect\<close>
  did; if \<open>onDetect\<close> threw, it calls \<open>onError\<close> with the exception and completes as
  \<open>onError\<close> does.
\<close>

theorem processContent_fallback:
  "detectFormat h [] = Inr None \<and> detectFormat h (js ''   '') = Inr None \<and>
   (detectFormat h text = Inr None \<longrightarrow>
      processContent h this text =
        (case onDetect this (fallbackEvent text) of
           None \<Rightarrow> (None, [OnDetect (fallbackEvent text)], this)
         | Some e \<Rightarrow> (onError this e, [OnDetect (fallbackEvent text), OnError e], this)))"
proof -
  have "detectFormat h text = Inr None \<Longrightarrow> eventOf h text = fallbackEvent text"
    by (simp add: eventOf_def)
  then show ?thesis
    using detectFormat_blank[of h] by (auto simp: processContent_eq split: option.splits)
qed

theorem processContent_fallback_witness:
  "detectFormat exampleHost (js ''   '') = Inr None \<and>
   processContent exampleHost (SmartPaste_constructor \<lparr>options_onDetect = None, options_onError = None\<rparr>)
       (js ''   '') =
     (None,
      [OnDetect \<lparr>tool = ''json'', confidence = 0, format = ''unknown'', content = js ''   '',
                 displayName = ''Unknown Format'', toolName = ''JSON Formatter''\<rparr>],
      SmartPaste_constructor \<lparr>options_onDetect = None, options_onError = None\<rparr>)"
  using processContent_fallback[of exampleHost "js ''   ''"
      "SmartPaste_constructor \<lparr>options_onDetect = None, options_onError = None\<rparr>"]
  by (simp add: SmartPaste_constructor_def fallbackEvent_def)

text \<open>
  C4, as stated, fails: on the empty string, with an \<open>onDetect\<close> that throws and an
  \<open>onError\<close> that rethrows, \<open>processContent\<close> throws.
\<close>

theorem processContent_fallback_counterexample:
  "detectFormat exampleHost [] = Inr None \<and>
   fst (processContent exampleHost throwingRouter []) = Some (Thrown 1)"
  by (simp add: processContent_eq throwingRouter_simps detectFormat_blank)




section \<open>Exceptions\<close>





section \<open>Base64\<close>






section \<open>JSON Web Tokens\<close>








end
